theory Spec2Isabelle
  imports Complex_Main
begin

section \<open>Strings\<close>

text \<open>
  Python strings are modelled as \<^typ>\<open>string\<close>. \<open>str.lower\<close> is modelled on the ASCII
  letters, the only ones that occur in the extension tables of \<open>app/extensions/exts.py\<close>;
  every other character is left as it is.
\<close>

definition lower_char :: "char \<Rightarrow> char" where
  "lower_char c =
     (case map_of (zip ''ABCDEFGHIJKLMNOPQRSTUVWXYZ'' ''abcdefghijklmnopqrstuvwxyz'') c of
        Some d \<Rightarrow> d
      | None \<Rightarrow> c)"

definition lower :: "string \<Rightarrow> string" where
  "lower s = map lower_char s"

text \<open>\<open>s.split(sep)\<close> for a one-character separator: never the empty list.\<close>

fun split :: "char \<Rightarrow> string \<Rightarrow> string list" where
  "split sep [] = [[]]"
| "split sep (x # xs) =
     (if x = sep then [] # split sep xs
      else (case split sep xs of [] \<Rightarrow> [[x]] | w # ws \<Rightarrow> (x # w) # ws))"

definition startswith :: "string \<Rightarrow> string \<Rightarrow> bool" where
  "startswith s pre = (take (length pre) s = pre)"

text \<open>\<open>s.replace(old, new, 1)\<close>: the first occurrence of \<open>old\<close>, wherever it is.\<close>

fun replace_once :: "string \<Rightarrow> string \<Rightarrow> string \<Rightarrow> string" where
  "replace_once old new [] = (if old = [] then new else [])"
| "replace_once old new (x # xs) =
     (if startswith (x # xs) old then new @ drop (length old) (x # xs)
      else x # replace_once old new xs)"

text \<open>\<open>s.rfind(".")\<close> as an option: the index of the last dot.\<close>

fun rfind_dot :: "string \<Rightarrow> nat option" where
  "rfind_dot [] = None"
| "rfind_dot (x # xs) =
     (case rfind_dot xs of
        Some i \<Rightarrow> Some (Suc i)
      | None \<Rightarrow> (if x = CHR ''.'' then Some 0 else None))"

section \<open>Errors\<close>

datatype error =
    OSError
  | ValueError
  | RuntimeError
  | AttributeError
  | ExceptionGroup "error list"

section \<open>app/extensions/exts.py\<close>

definition VIDEO_EXTS :: "string set" where
  "VIDEO_EXTS =
     {''.mp4'', ''.mkv'', ''.flv'', ''.avi'', ''.wmv'', ''.ts'', ''.rmvb'', ''.webm'',
      ''.mpg'', ''.mpeg'', ''.mov'', ''.m2ts'', ''.vob'', ''.3gp'', ''.ogv'', ''.divx'',
      ''.asf'', ''.m4v'', ''.mp3'', ''.aac'', ''.flac'', ''.wav'', ''.ogg'', ''.m4a'',
      ''.wma'', ''.ac3'', ''.opus'', ''.alac'', ''.mka''}"

definition SUBTITLE_EXTS :: "string set" where
  "SUBTITLE_EXTS = {''.ass'', ''.srt'', ''.ssa'', ''.sub'', ''.vtt'', ''.smi'', ''.idx''}"

definition IMAGE_EXTS :: "string set" where
  "IMAGE_EXTS = {''.png'', ''.jpg'', ''.jpeg'', ''.gif'', ''.bmp'', ''.tiff'', ''.webp''}"

definition NFO_EXTS :: "string set" where
  "NFO_EXTS = {''.nfo''}"

section \<open>app/modules/alist/v3/path.py\<close>

text \<open>
  The fields of \<open>AlistPath\<close> that the synchronisation engine reads. The remaining
  pydantic fields (thumb, type, hashinfo, hash_info, readme, header, provider, related)
  are carried by the class and never read by the code modelled here.
\<close>

record AlistPath =
  server_url :: string
  base_path :: string
  file_path :: string
  name :: string
  size :: int
  is_dir :: bool
  modified :: string
  sign :: string
  raw_url :: string
  full_path :: string

text \<open>\<open>s.rstrip("/")\<close>\<close>

definition rstrip_slash :: "string \<Rightarrow> string" where
  "rstrip_slash s = rev (dropWhile (\<lambda>c. c = CHR ''/'') (rev s))"

definition abs_path :: "AlistPath \<Rightarrow> string" where
  "abs_path p = rstrip_slash (base_path p) @ file_path p"

text \<open>
  \<open>URLUtils.encode\<close> lives in \<open>app/utils\<close>, outside the source at hand: it is a
  parameter.
\<close>

definition download_url :: "(string \<Rightarrow> string) \<Rightarrow> AlistPath \<Rightarrow> string" where
  "download_url encode p =
     (if sign p \<noteq> [] then encode (server_url p @ ''/d'' @ abs_path p @ ''?sign='' @ sign p)
      else encode (server_url p @ ''/d'' @ abs_path p))"

definition suffix :: "AlistPath \<Rightarrow> string" where
  "suffix p = (if is_dir p then [] else ''.'' @ last (split CHR ''.'' (name p)))"

text \<open>
  \<open>datetime.fromisoformat(s).timestamp()\<close> belongs to the standard library: the parser
  is a parameter, \<open>None\<close> standing for the \<open>ValueError\<close> it raises on a string that is
  not an ISO 8601 date.
\<close>

definition modified_timestamp :: "(string \<Rightarrow> real option) \<Rightarrow> AlistPath \<Rightarrow> error + real" where
  "modified_timestamp fromisoformat p =
     (case fromisoformat (modified p) of None \<Rightarrow> Inl ValueError | Some t \<Rightarrow> Inr t)"

section \<open>pathlib\<close>

text \<open>
  A POSIX \<open>pathlib.Path\<close>: its root (\<open>""\<close>, \<open>"/"\<close> or \<open>"//"\<close>) and the components after
  it. pathlib drops empty components and \<open>"."\<close>, keeps \<open>".."\<close>, and compares paths by these
  parts alone.
\<close>

datatype Path = Path (root: string) (tail: "string list")

definition parse_root :: "string \<Rightarrow> string" where
  "parse_root s =
     (if startswith s ''/'' then
        (if startswith s ''//'' \<and> \<not> startswith s ''///'' then ''//'' else ''/'')
      else [])"

definition parse_tail :: "string \<Rightarrow> string list" where
  "parse_tail s = filter (\<lambda>x. x \<noteq> [] \<and> x \<noteq> ''.'') (split CHR ''/'' s)"

definition mkPath :: "string \<Rightarrow> Path" where
  "mkPath s = Path (parse_root s) (parse_tail s)"

text \<open>\<open>p / s\<close>: an absolute right operand replaces the left one.\<close>

definition joinpath :: "Path \<Rightarrow> string \<Rightarrow> Path" where
  "joinpath p s = (if startswith s ''/'' then mkPath s else Path (root p) (tail p @ parse_tail s))"

definition path_name :: "Path \<Rightarrow> string" where
  "path_name p = (if tail p = [] then [] else last (tail p))"

definition parent :: "Path \<Rightarrow> Path" where
  "parent p = Path (root p) (butlast (tail p))"

text \<open>\<open>PurePath.suffix\<close>: from the last dot, unless it is the first or the last character.\<close>

definition name_suffix :: "string \<Rightarrow> string" where
  "name_suffix n =
     (case rfind_dot n of
        None \<Rightarrow> []
      | Some i \<Rightarrow> (if 0 < i \<and> i < length n - 1 then drop i n else []))"

definition path_suffix :: "Path \<Rightarrow> string" where
  "path_suffix p = name_suffix (path_name p)"

text \<open>\<open>PurePath.with_suffix\<close> for a well-formed suffix such as \<open>".strm"\<close>.\<close>

definition with_suffix :: "Path \<Rightarrow> string \<Rightarrow> error + Path" where
  "with_suffix p suf =
     (let n = path_name p in
      if n = [] then Inl ValueError
      else
        (let old = name_suffix n;
             n' = (if old = [] then n @ suf else take (length n - length old) n @ suf)
         in Inr (Path (root p) (butlast (tail p) @ [n']))))"

section \<open>The local file system\<close>

text \<open>
  The local file system is a table from paths to nodes. Paths are taken as they are
  written: no symbolic link and no \<open>".."\<close> is resolved, and \<open>stat\<close> fails only on a path
  that is absent. The roots (\<open>"/"\<close>, the working directory) are entries of the table like
  any other directory.
\<close>

datatype kind = Regular | Directory

datatype node = Node (kind: kind) (st_mtime: real) (st_size: int) (content: string)

type_synonym filesystem = "(Path \<times> node) list"

definition exists :: "filesystem \<Rightarrow> Path \<Rightarrow> bool" where
  "exists fs p = (map_of fs p \<noteq> None)"

definition is_file :: "filesystem \<Rightarrow> Path \<Rightarrow> bool" where
  "is_file fs p = (case map_of fs p of Some n \<Rightarrow> kind n = Regular | None \<Rightarrow> False)"

definition is_directory :: "filesystem \<Rightarrow> Path \<Rightarrow> bool" where
  "is_directory fs p = (case map_of fs p of Some n \<Rightarrow> kind n = Directory | None \<Rightarrow> False)"

definition stat :: "filesystem \<Rightarrow> Path \<Rightarrow> error + node" where
  "stat fs p = (case map_of fs p of Some n \<Rightarrow> Inr n | None \<Rightarrow> Inl OSError)"

definition remove :: "Path \<Rightarrow> filesystem \<Rightarrow> filesystem" where
  "remove p fs = filter (\<lambda>e. fst e \<noteq> p) fs"

text \<open>The entries directly inside \<open>d\<close>.\<close>

definition children :: "filesystem \<Rightarrow> Path \<Rightarrow> Path list" where
  "children fs d = filter (\<lambda>q. tail q \<noteq> [] \<and> parent q = d) (map fst fs)"

definition iterdir :: "filesystem \<Rightarrow> Path \<Rightarrow> error + Path list" where
  "iterdir fs d = (if is_directory fs d then Inr (children fs d) else Inl OSError)"

text \<open>\<open>d.rglob("*")\<close>: everything below \<open>d\<close>; nothing when \<open>d\<close> is not a directory.\<close>

definition below :: "Path \<Rightarrow> Path \<Rightarrow> bool" where
  "below d q =
     (root q = root d \<and> length (tail d) < length (tail q)
      \<and> take (length (tail d)) (tail q) = tail d)"

definition rglob :: "filesystem \<Rightarrow> Path \<Rightarrow> Path list" where
  "rglob fs d = (if is_directory fs d then filter (below d) (map fst fs) else [])"

definition unlink :: "filesystem \<Rightarrow> Path \<Rightarrow> error + filesystem" where
  "unlink fs p = (if is_file fs p then Inr (remove p fs) else Inl OSError)"

text \<open>\<open>os.rmdir\<close> refuses a root, the working directory and a directory that is not empty.\<close>

definition rmdir :: "filesystem \<Rightarrow> Path \<Rightarrow> error + filesystem" where
  "rmdir fs d =
     (if tail d \<noteq> [] \<and> is_directory fs d \<and> children fs d = [] then Inr (remove d fs)
      else Inl OSError)"

text \<open>\<open>d.mkdir(parents=True, exist_ok=True)\<close>; \<open>now\<close> stamps what is created.\<close>

function mkdir_parents :: "real \<Rightarrow> filesystem \<Rightarrow> Path \<Rightarrow> error + filesystem" where
  "mkdir_parents now fs d =
     (case map_of fs d of
        Some n \<Rightarrow> (if kind n = Directory then Inr fs else Inl OSError)
      | None \<Rightarrow>
          (if tail d = [] then Inl OSError
           else
             (case mkdir_parents now fs (parent d) of
                Inl e \<Rightarrow> Inl e
              | Inr fs1 \<Rightarrow> Inr ((d, Node Directory now 0 []) # fs1))))"
  by pat_completeness auto
termination
  by (relation "measure (\<lambda>(now, fs, d). length (tail d))") (auto simp: parent_def)

declare mkdir_parents.simps [simp del]

text \<open>Opening \<open>p\<close> for writing and writing \<open>text\<close>: the file is replaced as a whole.\<close>

definition write_file :: "real \<Rightarrow> filesystem \<Rightarrow> Path \<Rightarrow> string \<Rightarrow> error + filesystem" where
  "write_file now fs p text =
     (if tail p = [] \<or> is_directory fs p \<or> \<not> is_directory fs (parent p) then Inl OSError
      else Inr ((p, Node Regular now (int (length text)) text) # remove p fs))"

section \<open>app/modules/alist2strm/alist2strm.py\<close>

text \<open>
  What a call does: it returns, it raises, or it never returns (a task waiting for a
  semaphore that has no slot).
\<close>

datatype 'a outcome = Return 'a | Raise error | Blocked

text \<open>
  The \<open>Alist2Strm\<close> object. \<open>self_full_path\<close> is the attribute \<open>self.full_path\<close>, which
  \<open>__init__\<close> does not set (\<open>None\<close>: absent); the two semaphores are their initial
  values. \<open>id\<close> and \<open>wait_time\<close> only feed the log and the delay.
\<close>

record Alist2Strm =
  mode :: string
  source_dir :: string
  target_dir :: Path
  flatten_mode :: bool
  download_exts :: "string set"
  process_file_exts :: "string set"
  overwrite :: bool
  max_workers :: nat
  max_downloaders :: nat
  sync_server :: bool
  sync_ignore_pattern :: "(string \<Rightarrow> bool) option"
  self_full_path :: "string option"
  processed_local_paths :: "Path set"

text \<open>The keyword arguments of \<open>__init__\<close> that reach the object.\<close>

record kwargs =
  kw_source_dir :: string
  kw_target_dir :: string
  kw_flatten_mode :: bool
  kw_subtitle :: bool
  kw_image :: bool
  kw_nfo :: bool
  kw_mode :: string
  kw_overwrite :: bool
  kw_other_ext :: string
  kw_max_workers :: int
  kw_max_downloaders :: int
  kw_sync_server :: bool
  kw_sync_ignore :: "string option"

text \<open>
  \<open>__init__\<close>, after the client has been created. \<open>re_compile\<close> is the standard library's
  \<open>re.compile\<close> followed by \<open>search\<close>: a parameter. \<open>Semaphore\<close> raises \<open>ValueError\<close> on
  a negative value.
\<close>

definition init :: "(string \<Rightarrow> string \<Rightarrow> bool) \<Rightarrow> kwargs \<Rightarrow> error + Alist2Strm" where
  "init re_compile kw =
     (let subtitle = (if kw_flatten_mode kw then False else kw_subtitle kw);
          image = (if kw_flatten_mode kw then False else kw_image kw);
          nfo = (if kw_flatten_mode kw then False else kw_nfo kw);
          exts = (if subtitle then SUBTITLE_EXTS else {})
               \<union> (if image then IMAGE_EXTS else {})
               \<union> (if nfo then NFO_EXTS else {})
               \<union> (if kw_other_ext kw \<noteq> [] then set (split CHR '','' (lower (kw_other_ext kw)))
                  else {})
      in if kw_max_workers kw < 0 \<or> kw_max_downloaders kw < 0 then Inl ValueError
         else Inr \<lparr>mode = kw_mode kw,
                   source_dir = kw_source_dir kw,
                   target_dir = mkPath (kw_target_dir kw),
                   flatten_mode = kw_flatten_mode kw,
                   download_exts = exts,
                   process_file_exts = VIDEO_EXTS \<union> exts,
                   overwrite = kw_overwrite kw,
                   max_workers = nat (kw_max_workers kw),
                   max_downloaders = nat (kw_max_downloaders kw),
                   sync_server = kw_sync_server kw,
                   sync_ignore_pattern =
                     (case kw_sync_ignore kw of
                        None \<Rightarrow> None
                      | Some r \<Rightarrow> (if r = [] then None else Some (re_compile r))),
                   self_full_path = None,
                   processed_local_paths = {}\<rparr>)"

definition get_local_path :: "Alist2Strm \<Rightarrow> AlistPath \<Rightarrow> string \<Rightarrow> error + Path" where
  "get_local_path self p fp =
     (let local_path =
            (if flatten_mode self then joinpath (target_dir self) (name p)
             else
               (let relative_path =
                      (if fp \<noteq> [] then replace_once (source_dir self) [] fp else name p);
                    relative_path =
                      (if startswith relative_path ''/'' then drop 1 relative_path
                       else relative_path)
                in joinpath (target_dir self) relative_path))
      in if lower (suffix p) \<in> VIDEO_EXTS then with_suffix local_path ''.strm''
         else Inr local_path)"

text \<open>
  The nested function \<open>filter\<close> of \<open>run\<close>. It returns its verdict together with the
  object, whose attributes it has assigned by then, also when it raises.
\<close>

definition filter_entry ::
  "(string \<Rightarrow> real option) \<Rightarrow> filesystem \<Rightarrow> Alist2Strm \<Rightarrow> AlistPath \<Rightarrow> string
     \<Rightarrow> bool outcome \<times> Alist2Strm" where
  "filter_entry fromisoformat fs self p fp =
     (if is_dir p then (Return False, self)
      else if lower (suffix p) \<notin> process_file_exts self then (Return False, self)
      else
        (case get_local_path self p fp of
           Inl e \<Rightarrow> (if e = OSError then (Return False, self) else (Raise e, self))
         | Inr local_path \<Rightarrow>
             (let self1 = self\<lparr>self_full_path := Some fp,
                               processed_local_paths :=
                                 insert local_path (processed_local_paths self)\<rparr>
              in if \<not> overwrite self1 \<and> exists fs local_path then
                   (if suffix p \<in> download_exts self1 then
                      (case stat fs local_path of
                         Inl e \<Rightarrow> (Raise e, self1)
                       | Inr local_path_stat \<Rightarrow>
                           (case modified_timestamp fromisoformat p of
                              Inl e \<Rightarrow> (Raise e, self1)
                            | Inr t \<Rightarrow>
                                (if st_mtime local_path_stat < t then (Return True, self1)
                                 else if st_size local_path_stat < size p
                                   then (Return True, self1)
                                 else (Return False, self1))))
                    else (Return False, self1))
                 else (Return True, self1))))"

text \<open>
  What the engine takes from outside: the date parser, \<open>URLUtils.encode\<close>, the server's
  answer to \<open>/api/fs/get\<close> (\<open>None\<close>: a status or a code other than 200), what a download
  of a URL brings (\<open>None\<close>: the transfer fails), the clock, and the order in which Python
  iterates a set built from a list.
\<close>

record env =
  fromisoformat :: "string \<Rightarrow> real option"
  encode :: "string \<Rightarrow> string"
  api_fs_get :: "string \<Rightarrow> AlistPath option"
  http_download :: "string \<Rightarrow> string option"
  now :: real
  set_order :: "Path list \<Rightarrow> Path list"

text \<open>
  Modelled from the spec: \<open>RequestUtils.download\<close> (\<open>app/utils\<close>, not among the sources)
  is "download(RemoteEntry, destinationPath): streams to disk; fails with DownloadError".
  \<open>http_download env url\<close> is what the server sends for \<open>url\<close>, \<open>None\<close> when the transfer
  fails.
\<close>

definition download ::
  "env \<Rightarrow> filesystem \<Rightarrow> string \<Rightarrow> Path \<Rightarrow> error + filesystem" where
  "download env fs url local_path =
     (case http_download env url of
        None \<Rightarrow> Inl RuntimeError
      | Some data \<Rightarrow> write_file (now env) fs local_path data)"

section \<open>app/modules/alist/v3/client.py\<close>

record client =
  url :: string
  client_base_path :: string

text \<open>
  The remote tree as the server lists it: a listing fails (\<open>RuntimeError\<close>) or gives the
  entries of the directory, each with the listing of what is below it (read for
  directories only).
\<close>

datatype listing = Fails | Lists "(AlistPath \<times> listing) list"

definition child_path :: "string \<Rightarrow> string \<Rightarrow> string" where
  "child_path dir_path n = (if dir_path \<noteq> ''/'' then dir_path @ ''/'' @ n else ''/'' @ n)"

text \<open>The \<open>AlistPath\<close> that \<open>async_api_fs_list\<close> builds from one item of the answer.\<close>

definition listed :: "client \<Rightarrow> string \<Rightarrow> AlistPath \<Rightarrow> AlistPath" where
  "listed cl dir_path item =
     item\<lparr>server_url := url cl, base_path := client_base_path cl,
          file_path := child_path dir_path (name item),
          full_path := child_path dir_path (name item)\<rparr>"

definition async_api_fs_get :: "env \<Rightarrow> client \<Rightarrow> string \<Rightarrow> error + AlistPath" where
  "async_api_fs_get env cl path =
     (case api_fs_get env path of
        None \<Rightarrow> Inl RuntimeError
      | Some data \<Rightarrow>
          Inr (data\<lparr>server_url := url cl, base_path := client_base_path cl,
                    file_path := path, full_path := path\<rparr>))"

section \<open>The run\<close>

text \<open>
  \<open>trace\<close> records the remote calls, the tasks and the writes made so far; the code has
  no such field, the statements below read it. \<open>waiting\<close> says that a task is waiting
  for a download slot that will never come.
\<close>

datatype event =
    ApiFsList string
  | ApiFsGet string
  | CreateTask AlistPath
  | WriteStrm Path
  | Download string Path
  | TaskRaised error
  | FilterRaised error

text \<open>The errors that tasks and the filter have raised, in the order of the trace.\<close>

fun raised :: "event list \<Rightarrow> error list" where
  "raised [] = []"
| "raised (TaskRaised e # tr) = e # raised tr"
| "raised (FilterRaised e # tr) = e # raised tr"
| "raised (ev # tr) = raised tr"

record world =
  obj :: Alist2Strm
  disk :: filesystem
  trace :: "event list"
  waiting :: bool

text \<open>
  The text of the pointer file. \<open>AlistPath\<close> has no attribute \<open>path\<close>, so the mode
  \<open>"AlistPath"\<close> raises \<open>AttributeError\<close>.
\<close>

definition strm_content :: "env \<Rightarrow> Alist2Strm \<Rightarrow> AlistPath \<Rightarrow> error + string" where
  "strm_content env self p =
     (if mode self = ''AlistURL'' then Inr (download_url (encode env) p)
      else if mode self = ''RawURL'' then Inr (raw_url p)
      else if mode self = ''AlistPath'' then Inl AttributeError
      else Inl ValueError)"

text \<open>The first statement of \<open>__file_processer\<close>: the path the task will write.\<close>

definition task_local_path :: "Alist2Strm \<Rightarrow> AlistPath \<Rightarrow> error + Path" where
  "task_local_path self p =
     (case self_full_path self of
        None \<Rightarrow> Inl AttributeError
      | Some fp \<Rightarrow> get_local_path self p fp)"

definition file_processer :: "env \<Rightarrow> AlistPath \<Rightarrow> world \<Rightarrow> unit outcome \<times> world" where
  "file_processer env p w =
     (case task_local_path (obj w) p of
        Inl e \<Rightarrow> (Raise e, w)
      | Inr local_path \<Rightarrow>
          (case strm_content env (obj w) p of
             Inl e \<Rightarrow> (Raise e, w)
           | Inr body \<Rightarrow>
               (case mkdir_parents (now env) (disk w) (parent local_path) of
                  Inl e \<Rightarrow> (Raise e, w)
                | Inr fs1 \<Rightarrow>
                    (if path_suffix local_path = ''.strm'' then
                       (case write_file (now env) fs1 local_path body of
                          Inl e \<Rightarrow> (Raise e, w\<lparr>disk := fs1\<rparr>)
                        | Inr fs2 \<Rightarrow>
                            (Return (),
                             w\<lparr>disk := fs2, trace := trace w @ [WriteStrm local_path]\<rparr>))
                     else if max_downloaders (obj w) = 0 then (Blocked, w\<lparr>disk := fs1\<rparr>)
                     else
                       (case download env fs1 (download_url (encode env) p) local_path of
                          Inl e \<Rightarrow>
                            (Raise e,
                             w\<lparr>disk := fs1,
                               trace := trace w
                                 @ [Download (download_url (encode env) p) local_path]\<rparr>)
                        | Inr fs2 \<Rightarrow>
                            (Return (),
                             w\<lparr>disk := fs2,
                               trace := trace w
                                 @ [Download (download_url (encode env) p) local_path]\<rparr>))))))"

text \<open>
  \<open>tg.create_task(self.__file_processer(path))\<close>. The task starts at the next suspension
  of the traversal, which is the \<open>sleep\<close> that opens the next round of the loop: before
  the filter runs again. The model runs the task to its end there: the schedule in which
  every task has finished when the traversal goes on. A task that raises makes the task
  group cancel the traversal.
\<close>

definition create_task :: "env \<Rightarrow> AlistPath \<Rightarrow> world \<Rightarrow> unit outcome \<times> world" where
  "create_task env p w =
     (case file_processer env p (w\<lparr>trace := trace w @ [CreateTask p]\<rparr>) of
        (Return u, w1) \<Rightarrow> (Return (), w1)
      | (Raise e, w1) \<Rightarrow> (Raise e, w1\<lparr>trace := trace w1 @ [TaskRaised e]\<rparr>)
      | (Blocked, w1) \<Rightarrow> (Return (), w1\<lparr>waiting := True\<rparr>))"

text \<open>
  What \<open>iter_path\<close> does with an entry the filter has accepted: it yields the entry, or
  its detail when \<open>is_detail\<close>, to the loop of \<open>run\<close>, which creates the task.
\<close>

definition yield_entry ::
  "env \<Rightarrow> client \<Rightarrow> bool \<Rightarrow> AlistPath \<Rightarrow> string \<Rightarrow> world \<Rightarrow> unit outcome \<times> world" where
  "yield_entry env cl is_detail p fp w =
     (if is_detail then
        (case async_api_fs_get env cl fp of
           Inl e \<Rightarrow> (Raise e, w\<lparr>trace := trace w @ [ApiFsGet fp]\<rparr>)
         | Inr d \<Rightarrow> create_task env d (w\<lparr>trace := trace w @ [ApiFsGet fp]\<rparr>))
      else create_task env p w)"

text \<open>The filter on one entry, then the yield: the tail of the loop body of \<open>iter_path\<close>.\<close>

definition filter_and_yield ::
  "env \<Rightarrow> client \<Rightarrow> bool \<Rightarrow> AlistPath \<Rightarrow> string \<Rightarrow> world \<Rightarrow> unit outcome \<times> world" where
  "filter_and_yield env cl is_detail p fp w =
     (case filter_entry (fromisoformat env) (disk w) (obj w) p fp of
        (Return b, self1) \<Rightarrow>
          (if b then yield_entry env cl is_detail p fp (w\<lparr>obj := self1\<rparr>)
           else (Return (), w\<lparr>obj := self1\<rparr>))
      | (Raise e, self1) \<Rightarrow>
          (Raise e, w\<lparr>obj := self1, trace := trace w @ [FilterRaised e]\<rparr>)
      | (Blocked, self1) \<Rightarrow> (Blocked, w\<lparr>obj := self1\<rparr>))"

text \<open>
  \<open>AlistClient.iter_path\<close> with the loop of \<open>run\<close> that consumes it: depth first, a
  directory's subtree before the filter sees the directory itself.
\<close>

fun iter_path ::
  "env \<Rightarrow> client \<Rightarrow> bool \<Rightarrow> string \<Rightarrow> listing \<Rightarrow> world \<Rightarrow> unit outcome \<times> world"
and iter_entries ::
  "env \<Rightarrow> client \<Rightarrow> bool \<Rightarrow> string \<Rightarrow> (AlistPath \<times> listing) list \<Rightarrow> world
     \<Rightarrow> unit outcome \<times> world" where
  "iter_path env cl is_detail dir_path Fails w =
     (Raise RuntimeError, w\<lparr>trace := trace w @ [ApiFsList dir_path]\<rparr>)"
| "iter_path env cl is_detail dir_path (Lists es) w =
     iter_entries env cl is_detail dir_path es (w\<lparr>trace := trace w @ [ApiFsList dir_path]\<rparr>)"
| "iter_entries env cl is_detail dir_path [] w = (Return (), w)"
| "iter_entries env cl is_detail dir_path ((item, sub) # rest) w =
     (case (if is_dir item
            then iter_path env cl is_detail (child_path dir_path (name item)) sub w
            else (Return (), w)) of
        (Return u, w1) \<Rightarrow>
          (case filter_and_yield env cl is_detail (listed cl dir_path item)
                  (child_path dir_path (name item)) w1 of
             (Return u, w2) \<Rightarrow> iter_entries env cl is_detail dir_path rest w2
           | (Raise e, w2) \<Rightarrow> (Raise e, w2)
           | (Blocked, w2) \<Rightarrow> (Blocked, w2))
      | (Raise e, w1) \<Rightarrow> (Raise e, w1)
      | (Blocked, w1) \<Rightarrow> (Blocked, w1))"

section \<open>The reconciler\<close>

function remove_empty_dirs :: "Path \<Rightarrow> filesystem \<Rightarrow> Path \<Rightarrow> filesystem" where
  "remove_empty_dirs target fs parent_dir =
     (if parent_dir = target then fs
      else
        (case iterdir fs parent_dir of
           Inl e \<Rightarrow> fs
         | Inr kids \<Rightarrow>
             (if kids \<noteq> [] then fs
              else
                (case rmdir fs parent_dir of
                   Inl e \<Rightarrow> fs
                 | Inr fs1 \<Rightarrow> remove_empty_dirs target fs1 (parent parent_dir)))))"
  by pat_completeness auto
termination
  by (relation "measure (\<lambda>(target, fs, d). length (tail d))")
     (auto simp: rmdir_def parent_def split: if_splits)

declare remove_empty_dirs.simps [simp del]

text \<open>\<open>self.sync_ignore_pattern and self.sync_ignore_pattern.search(file_path.name)\<close>\<close>

definition ignored :: "Alist2Strm \<Rightarrow> Path \<Rightarrow> bool" where
  "ignored self f =
     (case sync_ignore_pattern self of None \<Rightarrow> False | Some search \<Rightarrow> search (path_name f))"

text \<open>The body of the loop over \<open>files_to_delete\<close>; every exception ends it, logged.\<close>

definition cleanup_file :: "Alist2Strm \<Rightarrow> filesystem \<Rightarrow> Path \<Rightarrow> filesystem" where
  "cleanup_file self fs f =
     (if ignored self f then fs
      else if exists fs f then
        (case unlink fs f of
           Inl e \<Rightarrow> fs
         | Inr fs1 \<Rightarrow> remove_empty_dirs (target_dir self) fs1 (parent f))
      else fs)"

definition all_local_files :: "Alist2Strm \<Rightarrow> filesystem \<Rightarrow> error + Path list" where
  "all_local_files self fs =
     (if flatten_mode self then
        (case iterdir fs (target_dir self) of
           Inl e \<Rightarrow> Inl e
         | Inr kids \<Rightarrow> Inr (filter (is_file fs) kids))
      else Inr (filter (is_file fs) (rglob fs (target_dir self))))"

definition files_to_delete :: "Alist2Strm \<Rightarrow> Path list \<Rightarrow> Path list" where
  "files_to_delete self files = filter (\<lambda>f. f \<notin> processed_local_paths self) files"

definition cleanup_local_files :: "env \<Rightarrow> world \<Rightarrow> unit outcome \<times> world" where
  "cleanup_local_files env w =
     (case all_local_files (obj w) (disk w) of
        Inl e \<Rightarrow> (Raise e, w)
      | Inr files \<Rightarrow>
          (Return (),
           w\<lparr>disk := foldl (cleanup_file (obj w)) (disk w)
                     (set_order env (files_to_delete (obj w) files))\<rparr>))"

text \<open>
  \<open>Alist2Strm.run\<close>: \<open>prepare\<close> is what it does before the task group. The semaphore
  \<open>max_workers\<close> is taken once, around the task group; what leaves the group is wrapped in
  an \<open>ExceptionGroup\<close>.
\<close>

definition prepare :: "world \<Rightarrow> world" where
  "prepare w =
     (let self1 = (if mode (obj w) \<notin> {''AlistURL'', ''RawURL'', ''AlistPath''}
                   then (obj w)\<lparr>mode := ''AlistURL''\<rparr> else obj w)
      in w\<lparr>obj := self1\<lparr>processed_local_paths := {}\<rparr>\<rparr>)"


text \<open>
  How the errors recorded in a trace grow over a call with result \<open>r\<close>: not at all, or
  by the one error that the call raises.
\<close>

definition raise_step :: "unit outcome \<Rightarrow> event list \<Rightarrow> event list \<Rightarrow> bool" where
  "raise_step r tr tr' =
     (case r of
        Raise e \<Rightarrow> raised tr' = raised tr \<or> raised tr' = raised tr @ [e]
      | _ \<Rightarrow> raised tr' = raised tr)"

text \<open>
  What \<open>__init__\<close> establishes and nothing changes afterwards: the processing set is the
  media extensions with the download set, and the download set is written in lower case.
\<close>

definition built :: "Alist2Strm \<Rightarrow> bool" where
  "built self =
     (process_file_exts self = VIDEO_EXTS \<union> download_exts self
      \<and> (\<forall>s \<in> download_exts self. lower s = s))"

section \<open>Tasks in flight\<close>

text \<open>
  The task group of \<open>run\<close> under the event loop. \<open>pending\<close> holds the local paths of the
  entries that the traversal has still to yield; a task is the path it writes and the
  place where \<open>__file_processer\<close> stands: created, in \<open>mkdir\<close>, writing the pointer file,
  waiting for \<open>__max_downloaders\<close>, or downloading inside it. The two counters are the
  values of the semaphores.
\<close>

datatype phase = Created | Mkdir | Writing | WaitDownload | Downloading

record sched =
  workers_free :: nat
  downloaders_free :: nat
  pending :: "Path list"
  tasks :: "(Path \<times> phase) list"

text \<open>
  \<open>async with self.__max_workers, TaskGroup() as tg\<close>: \<open>run\<close> takes one slot of the
  semaphore for the whole group (it waits for ever when there is none).
\<close>

definition enter_group :: "Alist2Strm \<Rightarrow> Path list \<Rightarrow> sched option" where
  "enter_group self yielded =
     (if max_workers self = 0 then None
      else Some \<lparr>workers_free = max_workers self - 1,
                 downloaders_free = max_downloaders self,
                 pending = yielded, tasks = []\<rparr>)"

inductive step :: "sched \<Rightarrow> sched \<Rightarrow> bool" where
  spawn:
    "pending s = lp # ps \<Longrightarrow>
     step s (s\<lparr>pending := ps, tasks := tasks s @ [(lp, Created)]\<rparr>)"
| start:
    "tasks s = xs @ (lp, Created) # ys \<Longrightarrow>
     step s (s\<lparr>tasks := xs @ (lp, Mkdir) # ys\<rparr>)"
| mkdir_strm:
    "tasks s = xs @ (lp, Mkdir) # ys \<Longrightarrow> path_suffix lp = ''.strm'' \<Longrightarrow>
     step s (s\<lparr>tasks := xs @ (lp, Writing) # ys\<rparr>)"
| mkdir_other:
    "tasks s = xs @ (lp, Mkdir) # ys \<Longrightarrow> path_suffix lp \<noteq> ''.strm'' \<Longrightarrow>
     step s (s\<lparr>tasks := xs @ (lp, WaitDownload) # ys\<rparr>)"
| acquire:
    "tasks s = xs @ (lp, WaitDownload) # ys \<Longrightarrow> 0 < downloaders_free s \<Longrightarrow>
     step s (s\<lparr>downloaders_free := downloaders_free s - 1,
              tasks := xs @ (lp, Downloading) # ys\<rparr>)"
| release:
    "tasks s = xs @ (lp, Downloading) # ys \<Longrightarrow>
     step s (s\<lparr>downloaders_free := downloaders_free s + 1, tasks := xs @ ys\<rparr>)"
| leave:
    "tasks s = xs @ (lp, ph) # ys \<Longrightarrow> ph \<noteq> Downloading \<Longrightarrow>
     step s (s\<lparr>tasks := xs @ ys\<rparr>)"

definition downloading :: "sched \<Rightarrow> nat" where
  "downloading s = length (filter (\<lambda>t. snd t = Downloading) (tasks s))"

definition in_flight :: "sched \<Rightarrow> nat" where
  "in_flight s = length (tasks s)"

section \<open>Well-formed file systems\<close>



section \<open>Example data\<close>

text \<open>An item of a listing, as the server sends it.\<close>

definition item :: "string \<Rightarrow> int \<Rightarrow> string \<Rightarrow> bool \<Rightarrow> AlistPath" where
  "item n sz m d =
     \<lparr>server_url = [], base_path = [], file_path = [], name = n, size = sz, is_dir = d,
      modified = m, sign = [], raw_url = [], full_path = []\<rparr>"

text \<open>A job that mirrors \<open>/\<close> into \<open>/t\<close> with subtitles, and what \<open>__init__\<close> makes of it.\<close>

definition example_kwargs :: kwargs where
  "example_kwargs =
     \<lparr>kw_source_dir = ''/'', kw_target_dir = ''/t'', kw_flatten_mode = False,
      kw_subtitle = True, kw_image = False, kw_nfo = False, kw_mode = ''AlistURL'',
      kw_overwrite = False, kw_other_ext = [], kw_max_workers = 1, kw_max_downloaders = 5,
      kw_sync_server = True, kw_sync_ignore = None\<rparr>"

definition example_self :: Alist2Strm where
  "example_self =
     \<lparr>mode = ''AlistURL'', source_dir = ''/'', target_dir = Path ''/'' [''t''],
      flatten_mode = False, download_exts = SUBTITLE_EXTS,
      process_file_exts = VIDEO_EXTS \<union> SUBTITLE_EXTS, overwrite = False,
      max_workers = 1, max_downloaders = 5, sync_server = True,
      sync_ignore_pattern = None, self_full_path = None, processed_local_paths = {}\<rparr>"

definition example_env :: env where
  "example_env =
     \<lparr>fromisoformat = (\<lambda>s. if s = ''2024-01-01T00:00:00'' then Some 1704067200 else None),
      encode = (\<lambda>s. s), api_fs_get = (\<lambda>s. None), http_download = (\<lambda>s. Some ''data''),
      now = 1800000000, set_order = remdups\<rparr>"

definition example_client :: client where
  "example_client = \<lparr>url = ''http://h'', client_base_path = ''/''\<rparr>"

definition example_disk :: filesystem where
  "example_disk =
     [(Path ''/'' [], Node Directory 0 0 []), (Path ''/'' [''t''], Node Directory 0 0 [])]"



definition example_world :: "filesystem \<Rightarrow> world" where
  "example_world fs = \<lparr>obj = example_self, disk = fs, trace = [], waiting = False\<rparr>"

text \<open>A subtitle whose extension is written in capitals and whose date does not parse.\<close>

definition srt_item :: AlistPath where
  "srt_item = item ''a.SRT'' 500 ''2024-01-01T00:00:00'' False"


text \<open>A target that holds shorter, newer copies of the two subtitles and a pointer file.\<close>

definition srt_disk :: filesystem where
  "srt_disk =
     (Path ''/'' [''t'', ''a.SRT''], Node Regular 1800000000 200 (replicate 200 CHR ''x''))
     # (Path ''/'' [''t'', ''a.srt''], Node Regular 1800000000 200 (replicate 200 CHR ''x''))
     # (Path ''/'' [''t'', ''a.strm''], Node Regular 1800000000 15 ''http://h/d/a.mp4'')
     # example_disk"

text \<open>The same job with \<open>other_ext=".mp4"\<close>.\<close>

definition mp4_kwargs :: kwargs where
  "mp4_kwargs = example_kwargs\<lparr>kw_other_ext := ''.mp4''\<rparr>"

definition mp4_self :: Alist2Strm where
  "mp4_self =
     example_self\<lparr>download_exts := SUBTITLE_EXTS \<union> {''.mp4''},
                   process_file_exts := VIDEO_EXTS \<union> (SUBTITLE_EXTS \<union> {''.mp4''})\<rparr>"

definition mp4_item :: AlistPath where
  "mp4_item = item ''a.mp4'' 100 ''2024-01-01T00:00:00'' False"

text \<open>The pointer file of \<open>/movies/a.mp4\<close> and of \<open>/movies/a.mkv\<close>, and a subtitle.\<close>

definition strm_path :: Path where
  "strm_path = Path ''/'' [''t'', ''movies'', ''a.strm'']"

definition srt_path :: Path where
  "srt_path = Path ''/'' [''t'', ''movies'', ''a.srt'']"





text \<open>
  A mirror with the pointer file of this run and an orphan two directories down, and
  the world in which the run has touched the pointer file.
\<close>

definition mirror_disk :: filesystem where
  "mirror_disk =
     [(strm_path, Node Regular 1800000000 15 ''http://h/d/a.mp4''),
      (Path ''/'' [''t'', ''movies''], Node Directory 0 0 []),
      (Path ''/'' [''t'', ''old'', ''sub'', ''b.strm''], Node Regular 5 3 ''abc''),
      (Path ''/'' [''t'', ''old'', ''sub''], Node Directory 0 0 []),
      (Path ''/'' [''t'', ''old''], Node Directory 0 0 [])] @ example_disk"

definition mirror_world :: world where
  "mirror_world =
     \<lparr>obj = example_self\<lparr>processed_local_paths := {strm_path}\<rparr>, disk = mirror_disk,
      trace = [], waiting = False\<rparr>"

text \<open>Two tasks at work under \<open>max_workers = 1\<close>; two tasks writing one pointer file.\<close>

definition two_tasks :: sched where
  "two_tasks =
     \<lparr>workers_free = 0, downloaders_free = 5, pending = [],
      tasks = [(strm_path, Mkdir), (srt_path, Mkdir)]\<rparr>"


section \<open>The path mapper\<close>

lemma replace_once_prefix:
  "startswith s old \<Longrightarrow> replace_once old new s = new @ drop (length old) s"
  by (cases s) (auto simp: startswith_def)

text \<open>Every full path that the traversal builds starts with the directory it lists.\<close>

lemma startswith_child_path: "startswith (child_path d n) d"
  by (auto simp: child_path_def startswith_def)

lemma startswith_trans: "startswith b a \<Longrightarrow> startswith c b \<Longrightarrow> startswith c a"
  unfolding startswith_def
  by (metis append_eq_conv_conj append_take_drop_id append.assoc)

lemma rfind_dot_append_strm: "rfind_dot (xs @ ''.strm'') = Some (length xs)"
  by (induction xs) auto

lemma name_suffix_strm: "xs \<noteq> [] \<Longrightarrow> name_suffix (xs @ ''.strm'') = ''.strm''"
  by (cases xs) (auto simp: name_suffix_def rfind_dot_append_strm)

lemma with_suffix_strm:
  assumes "with_suffix b ''.strm'' = Inr q"
  shows "path_suffix q = ''.strm'' \<and> parent q = parent b \<and> root q = root b"
proof -
  let ?n = "path_name b"
  from assms have n: "?n \<noteq> []"
    by (auto simp: with_suffix_def Let_def split: if_splits)
  show ?thesis
  proof (cases "name_suffix ?n = []")
    case True
    with assms n show ?thesis
      by (auto simp: with_suffix_def Let_def path_suffix_def path_name_def parent_def
          name_suffix_strm)
  next
    case False
    then obtain i where "rfind_dot ?n = Some i" "0 < i" "i < length ?n - 1"
      "name_suffix ?n = drop i ?n"
      by (auto simp: name_suffix_def split: option.splits if_splits)
    then have "take (length ?n - length (name_suffix ?n)) ?n \<noteq> []"
      by auto
    with assms n False show ?thesis
      by (auto simp: with_suffix_def Let_def path_suffix_def path_name_def parent_def
          name_suffix_strm)
  qed
qed

text \<open>
  C7. For a full path that starts with the configured remote root (as every path of the
  traversal does), the mapper gives: in flatten mode the target root joined with the
  entry's name; otherwise the target root joined with the full path, the remote root
  taken off its front and a leading separator, if there is one, removed; and for an entry
  whose extension is a media extension, compared in lower case, that path with its
  extension replaced, so that the extension of the result is \<open>.strm\<close>.
\<close>

theorem path_mapper:
  assumes "fp \<noteq> []" and "startswith fp (source_dir self)"
  shows "get_local_path self p fp =
           (let rest = drop (length (source_dir self)) fp;
                mapped = joinpath (target_dir self)
                  (if flatten_mode self then name p
                   else if startswith rest ''/'' then drop 1 rest else rest)
            in if lower (suffix p) \<in> VIDEO_EXTS then with_suffix mapped ''.strm''
               else Inr mapped)
         \<and> (\<forall>q. lower (suffix p) \<in> VIDEO_EXTS \<and> get_local_path self p fp = Inr q
                \<longrightarrow> path_suffix q = ''.strm'')"
  using assms
  by (auto simp: get_local_path_def Let_def replace_once_prefix dest: with_suffix_strm)

theorem path_mapper_witness:
  "''/movies/a.MP4'' \<noteq> [] \<and> startswith ''/movies/a.MP4'' (source_dir example_self)
   \<and> lower (suffix (item ''a.MP4'' 100 [] False)) \<in> VIDEO_EXTS
   \<and> get_local_path example_self (item ''a.MP4'' 100 [] False) ''/movies/a.MP4''
       = Inr (Path ''/'' [''t'', ''movies'', ''a.strm''])
   \<and> path_suffix (Path ''/'' [''t'', ''movies'', ''a.strm'']) = ''.strm''"
proof -
  have h1: "''/movies/a.MP4'' \<noteq> []"
    by simp
  have h2: "startswith ''/movies/a.MP4'' (source_dir example_self)"
    by (simp add: startswith_def example_self_def)
  have h3: "lower (suffix (item ''a.MP4'' 100 [] False)) \<in> VIDEO_EXTS"
    by (simp add: suffix_def item_def lower_def lower_char_def VIDEO_EXTS_def)
  have eq: "get_local_path example_self (item ''a.MP4'' 100 [] False) ''/movies/a.MP4''
       = Inr (Path ''/'' [''t'', ''movies'', ''a.strm''])"
    using path_mapper [OF h1 h2, of "item ''a.MP4'' 100 [] False"] h3
    by (simp add: Let_def example_self_def item_def startswith_def joinpath_def
        parse_tail_def with_suffix_def path_name_def name_suffix_def)
  have "path_suffix (Path ''/'' [''t'', ''movies'', ''a.strm'']) = ''.strm''"
    using path_mapper [OF h1 h2, of "item ''a.MP4'' 100 [] False"] h3 eq
    by blast
  with h1 h2 h3 eq show ?thesis
    by blast
qed

section \<open>What the traversal leaves unchanged\<close>

lemma raised_append: "raised (xs @ ys) = raised xs @ raised ys"
  by (induction xs rule: raised.induct) auto

lemma file_processer_frame:
  "file_processer env p w = (r, w') \<Longrightarrow> obj w' = obj w \<and> raised (trace w') = raised (trace w)"
  by (auto simp: file_processer_def raised_append split: sum.splits if_splits)

lemma create_task_frame:
  assumes "create_task env p w = (r, w')"
  shows "obj w' = obj w \<and> raise_step r (trace w) (trace w')"
proof -
  obtain r0 w0 where f: "file_processer env p (w\<lparr>trace := trace w @ [CreateTask p]\<rparr>) = (r0, w0)"
    by (cases "file_processer env p (w\<lparr>trace := trace w @ [CreateTask p]\<rparr>)")
  from file_processer_frame [OF f]
  have "obj w0 = obj w" "raised (trace w0) = raised (trace w)"
    by (simp_all add: raised_append)
  with assms f show ?thesis
    by (cases r0) (auto simp: create_task_def raise_step_def raised_append)
qed

lemma yield_entry_frame:
  assumes "yield_entry env cl d p fp w = (r, w')"
  shows "obj w' = obj w \<and> raise_step r (trace w) (trace w')"
proof (cases "d \<and> (\<exists>e. async_api_fs_get env cl fp = Inl e)")
  case True
  with assms show ?thesis
    by (auto simp: yield_entry_def raise_step_def raised_append)
next
  case False
  then obtain q w0 where "create_task env q w0 = (r, w')" "obj w0 = obj w"
    "raised (trace w0) = raised (trace w)"
    using assms by (auto simp: yield_entry_def raised_append split: if_splits sum.splits)
  with create_task_frame [of env q w0 r w'] show ?thesis
    by (simp add: raise_step_def split: outcome.splits)
qed

lemma filter_and_yield_frame:
  assumes "filter_and_yield env cl d p fp w = (r, w')"
  shows "processed_local_paths (obj w) \<subseteq> processed_local_paths (obj w')
         \<and> raise_step r (trace w) (trace w')"
proof -
  obtain v self1 where fe: "filter_entry (fromisoformat env) (disk w) (obj w) p fp = (v, self1)"
    by (cases "filter_entry (fromisoformat env) (disk w) (obj w) p fp")
  have sub: "processed_local_paths (obj w) \<subseteq> processed_local_paths self1"
    using fe by (auto simp: filter_entry_def Let_def split: sum.splits if_splits)
  show ?thesis
  proof (cases "v = Return True")
    case True
    with assms fe have "yield_entry env cl d p fp (w\<lparr>obj := self1\<rparr>) = (r, w')"
      by (simp add: filter_and_yield_def)
    from yield_entry_frame [OF this] sub show ?thesis
      by simp
  next
    case False
    with assms fe sub show ?thesis
      by (cases v) (auto simp: filter_and_yield_def raise_step_def raised_append)
  qed
qed

lemma raise_step_refl: "raise_step r tr tr"
  by (simp add: raise_step_def split: outcome.splits)

lemma raise_step_Return_then:
  "raise_step (Return u) tr tr1 \<Longrightarrow> raise_step r tr1 tr2 \<Longrightarrow> raise_step r tr tr2"
  by (simp add: raise_step_def split: outcome.splits)

lemma iter_frame:
  "iter_path env cl d dp l w = (r, w') \<Longrightarrow>
     processed_local_paths (obj w) \<subseteq> processed_local_paths (obj w')
     \<and> raise_step r (trace w) (trace w')"
  "iter_entries env cl d dp es w = (r, w') \<Longrightarrow>
     processed_local_paths (obj w) \<subseteq> processed_local_paths (obj w')
     \<and> raise_step r (trace w) (trace w')"
proof (induction env cl d dp l w and env cl d dp es w arbitrary: r w' and r w'
    rule: iter_path_iter_entries.induct)
  case (1 env cl is_detail dir_path w)
  then show ?case
    by (auto simp: raise_step_def raised_append)
next
  case (2 env cl is_detail dir_path es w)
  from "2.prems" "2.IH" [of r w'] show ?case
    by (simp add: raise_step_def raised_append split: outcome.splits)
next
  case (3 env cl is_detail dir_path w)
  then show ?case
    by (auto simp: raise_step_def)
next
  case (4 env cl is_detail dir_path item sub rest w)
  let ?fp = "child_path dir_path (name item)"
  obtain r1 w1 where s1:
    "(if is_dir item then iter_path env cl is_detail ?fp sub w else (Return (), w)) = (r1, w1)"
    by (cases "if is_dir item then iter_path env cl is_detail ?fp sub w else (Return (), w)")
  have f1: "processed_local_paths (obj w) \<subseteq> processed_local_paths (obj w1)
      \<and> raise_step r1 (trace w) (trace w1)"
  proof (cases "is_dir item")
    case True
    with s1 "4.IH"(1) [of r1 w1] show ?thesis by simp
  next
    case False
    with s1 show ?thesis by (auto simp: raise_step_refl)
  qed
  show ?case
  proof (cases r1)
    case (Return u1)
    obtain r2 w2 where s2:
      "filter_and_yield env cl is_detail (listed cl dir_path item) ?fp w1 = (r2, w2)"
      by (cases "filter_and_yield env cl is_detail (listed cl dir_path item) ?fp w1")
    note f2 = filter_and_yield_frame [OF s2]
    show ?thesis
    proof (cases r2)
      case (Return u2)
      with s1 s2 \<open>r1 = Return u1\<close> "4.prems"
      have s3: "iter_entries env cl is_detail dir_path rest w2 = (r, w')"
        by simp
      from "4.IH"(2) [OF s1 [symmetric] _ s2 [symmetric] _ s3] \<open>r1 = Return u1\<close> Return
      have f3: "processed_local_paths (obj w2) \<subseteq> processed_local_paths (obj w')
         \<and> raise_step r (trace w2) (trace w')"
        by simp
      from f1 f2 f3 \<open>r1 = Return u1\<close> Return show ?thesis
        by (auto simp: raise_step_def split: outcome.splits)
    next
      case (Raise e)
      with s1 s2 \<open>r1 = Return u1\<close> "4.prems" have "r = Raise e" "w' = w2"
        by simp_all
      with f1 f2 \<open>r1 = Return u1\<close> Raise show ?thesis
        by (auto simp: raise_step_def)
    next
      case Blocked
      with s1 s2 \<open>r1 = Return u1\<close> "4.prems" have "r = Blocked" "w' = w2"
        by simp_all
      with f1 f2 \<open>r1 = Return u1\<close> Blocked show ?thesis
        by (auto simp: raise_step_def)
    qed
  next
    case (Raise e)
    with s1 "4.prems" have "r = Raise e" "w' = w1"
      by simp_all
    with f1 Raise show ?thesis by simp
  next
    case Blocked
    with s1 "4.prems" have "r = Blocked" "w' = w1"
      by simp_all
    with f1 Blocked show ?thesis by simp
  qed
qed

section \<open>Failures and the run\<close>



lemma cleanup_obj: "obj (snd (cleanup_local_files env w)) = obj w"
  by (simp add: cleanup_local_files_def split: sum.split)







section \<open>The entry filter\<close>

lemma lower_char_idem: "lower_char (lower_char c) = lower_char c"
  by (simp add: lower_char_def)

lemma split_chars_all: "\<forall>x \<in> set (split sep s). set x \<subseteq> set s"
proof (induction s)
  case Nil
  show ?case by simp
next
  case (Cons a s)
  show ?case
  proof (cases "split sep s")
    case Nil
    with Cons show ?thesis by auto
  next
    case (Cons w ws)
    with Cons.IH have "set w \<subseteq> set s" "\<forall>x \<in> set ws. set x \<subseteq> set s"
      by simp_all
    with Cons show ?thesis by auto
  qed
qed

lemma split_chars: "x \<in> set (split sep s) \<Longrightarrow> set x \<subseteq> set s"
  using split_chars_all by blast

lemma lower_fixed: "lower x = x \<longleftrightarrow> (\<forall>c \<in> set x. lower_char c = c)"
  unfolding lower_def using map_eq_conv [of lower_char x id] by simp

lemma split_lower_fixed:
  assumes "x \<in> set (split sep (lower s))"
  shows "lower x = x"
proof -
  from split_chars [OF assms] have "set x \<subseteq> lower_char ` set s"
    by (simp add: lower_def)
  then show ?thesis
    by (auto simp: lower_fixed lower_char_idem)
qed

lemma tables_lower:
  "s \<in> SUBTITLE_EXTS \<union> IMAGE_EXTS \<union> NFO_EXTS \<Longrightarrow> lower s = s"
  by (auto simp: SUBTITLE_EXTS_def IMAGE_EXTS_def NFO_EXTS_def lower_def lower_char_def)

lemma init_built:
  assumes "init re kw = Inr self"
  shows "built self"
proof -
  let ?sub = "if kw_flatten_mode kw then False else kw_subtitle kw"
  let ?img = "if kw_flatten_mode kw then False else kw_image kw"
  let ?nfo = "if kw_flatten_mode kw then False else kw_nfo kw"
  let ?exts = "(if ?sub then SUBTITLE_EXTS else {}) \<union> (if ?img then IMAGE_EXTS else {})
      \<union> (if ?nfo then NFO_EXTS else {})
      \<union> (if kw_other_ext kw \<noteq> [] then set (split CHR '','' (lower (kw_other_ext kw))) else {})"
  from assms have d: "download_exts self = ?exts" and p: "process_file_exts self = VIDEO_EXTS \<union> ?exts"
    by (auto simp: init_def Let_def split: if_splits)
  have "\<forall>s \<in> ?exts. lower s = s"
    using tables_lower split_lower_fixed by (auto split: if_splits)
  with d p show ?thesis
    by (simp add: built_def)
qed

lemma filter_entry_built:
  "built self \<Longrightarrow> built (snd (filter_entry parse fs self p fp))"
  by (auto simp: filter_entry_def built_def Let_def split: sum.split)





lemma get_local_path_entry:
  "name q = name p \<Longrightarrow> is_dir q = is_dir p \<Longrightarrow> get_local_path self q fp = get_local_path self p fp"
  by (simp add: get_local_path_def suffix_def)

lemma filter_entry_records:
  assumes "\<not> is_dir p" and "lower (suffix p) \<in> process_file_exts self"
    and "get_local_path self p fp = Inr lp"
  shows "lp \<in> processed_local_paths (snd (filter_entry parse fs self p fp))"
  using assms by (auto simp: filter_entry_def Let_def split: sum.split)

lemma iter_path_mono:
  "processed_local_paths (obj w) \<subseteq> processed_local_paths (obj (snd (iter_path env cl d dp l w)))"
  using iter_frame(1) [of env cl d dp l w "fst (iter_path env cl d dp l w)"
      "snd (iter_path env cl d dp l w)"]
  by simp

text \<open>
  C8. For an entry that is not a directory, passes the extension check and has a local
  path, the filter has put that path into \<open>processed_local_paths\<close> when it is left,
  whatever it returns or raises. The set never shrinks: \<open>run\<close> empties it before the task
  group, the filter only adds to it, so it only grows along the traversal; the tasks and
  the reconciler leave the object as it is.
\<close>

theorem touched_paths_recorded:
  "(\<not> is_dir p \<and> lower (suffix p) \<in> process_file_exts self
      \<and> get_local_path self p fp = Inr lp
      \<longrightarrow> lp \<in> processed_local_paths (snd (filter_entry parse fs self p fp)))
   \<and> processed_local_paths self \<subseteq> processed_local_paths (snd (filter_entry parse fs self p fp))
   \<and> processed_local_paths (obj (prepare w)) = {}
   \<and> processed_local_paths (obj w)
       \<subseteq> processed_local_paths (obj (snd (iter_path env cl d dp l w)))
   \<and> obj (snd (create_task env q w)) = obj w
   \<and> obj (snd (cleanup_local_files env w)) = obj w"
proof -
  have "obj (snd (create_task env q w)) = obj w"
    using create_task_frame [of env q w "fst (create_task env q w)" "snd (create_task env q w)"]
    by simp
  moreover have "processed_local_paths (obj (prepare w)) = {}"
    by (simp add: prepare_def Let_def)
  moreover have "processed_local_paths self
      \<subseteq> processed_local_paths (snd (filter_entry parse fs self p fp))"
    by (auto simp: filter_entry_def Let_def split: sum.split)
  ultimately show ?thesis
    using filter_entry_records iter_path_mono cleanup_obj by blast
qed

theorem touched_paths_recorded_witness:
  "\<not> is_dir mp4_item \<and> lower (suffix mp4_item) \<in> process_file_exts example_self
   \<and> get_local_path example_self mp4_item ''/a.mp4'' = Inr (Path ''/'' [''t'', ''a.strm''])
   \<and> fst (filter_entry (fromisoformat example_env) srt_disk example_self mp4_item ''/a.mp4'')
       = Return False
   \<and> Path ''/'' [''t'', ''a.strm'']
       \<in> processed_local_paths
           (snd (filter_entry (fromisoformat example_env) srt_disk example_self mp4_item
                   ''/a.mp4''))"
proof -
  have h1: "\<not> is_dir mp4_item"
    by code_simp
  have h2: "lower (suffix mp4_item) \<in> process_file_exts example_self"
    by code_simp
  have h3: "get_local_path example_self mp4_item ''/a.mp4'' = Inr (Path ''/'' [''t'', ''a.strm''])"
    by code_simp
  have h4: "fst (filter_entry (fromisoformat example_env) srt_disk example_self mp4_item ''/a.mp4'')
       = Return False"
    by code_simp
  from touched_paths_recorded [of mp4_item example_self "''/a.mp4''" "Path ''/'' [''t'', ''a.strm'']"
      "fromisoformat example_env" srt_disk] h1 h2 h3 h4
  show ?thesis
    by blast
qed

lemma init_example: "init re example_kwargs = Inr example_self"
  by (simp add: init_def example_kwargs_def example_self_def mkPath_def parse_root_def
      parse_tail_def startswith_def)

lemma init_mp4: "init re mp4_kwargs = Inr mp4_self"
  by (simp add: init_def mp4_kwargs_def mp4_self_def example_kwargs_def example_self_def
      mkPath_def parse_root_def parse_tail_def startswith_def lower_def lower_char_def)

lemma download_type_compared:
  assumes "built self" and "\<not> is_dir p" and "suffix p \<in> download_exts self"
    and "\<not> overwrite self" and "get_local_path self p fp = Inr lp"
    and "map_of fs lp = Some st" and "parse (modified p) = Some t"
  shows "fst (filter_entry parse fs self p fp)
           = Return (st_mtime st < t \<or> st_size st < size p)"
proof -
  from assms(1,3) have "lower (suffix p) \<in> process_file_exts self"
    by (auto simp: built_def)
  with assms show ?thesis
    by (simp add: filter_entry_def Let_def exists_def stat_def modified_timestamp_def)
qed

text \<open>
  C6 fails on the code: the test \<open>path.suffix in self.download_exts\<close> compares the
  extension as it is written, while the extension check above it and the path mapper
  compare it in lower case. The subtitle \<open>a.SRT\<close> (500 bytes on the server) is
  classified for download; its local copy exists with 200 bytes and overwrite is
  disabled; the filter answers \<open>False\<close>, no comparison made.
\<close>

theorem capital_extension_not_compared:
  "init (\<lambda>r s. False) example_kwargs = Inr example_self
   \<and> \<not> is_dir srt_item \<and> lower (suffix srt_item) \<in> download_exts example_self
   \<and> \<not> overwrite example_self
   \<and> get_local_path example_self srt_item ''/a.SRT'' = Inr (Path ''/'' [''t'', ''a.SRT''])
   \<and> exists srt_disk (Path ''/'' [''t'', ''a.SRT''])
   \<and> (case stat srt_disk (Path ''/'' [''t'', ''a.SRT'']) of
         Inr n \<Rightarrow> st_size n < size srt_item
       | Inl e \<Rightarrow> False)
   \<and> fst (filter_entry (fromisoformat example_env) srt_disk example_self srt_item ''/a.SRT'')
       = Return False"
proof -
  have "init (\<lambda>r s. False) example_kwargs = Inr example_self"
    by (rule init_example)
  moreover have "\<not> is_dir srt_item \<and> lower (suffix srt_item) \<in> download_exts example_self
   \<and> \<not> overwrite example_self
   \<and> get_local_path example_self srt_item ''/a.SRT'' = Inr (Path ''/'' [''t'', ''a.SRT''])
   \<and> exists srt_disk (Path ''/'' [''t'', ''a.SRT''])
   \<and> (case stat srt_disk (Path ''/'' [''t'', ''a.SRT'']) of
         Inr n \<Rightarrow> st_size n < size srt_item
       | Inl e \<Rightarrow> False)
   \<and> fst (filter_entry (fromisoformat example_env) srt_disk example_self srt_item ''/a.SRT'')
       = Return False"
    by code_simp
  ultimately show ?thesis
    by blast
qed

lemma pointer_suffix:
  "lower (suffix p) \<in> VIDEO_EXTS \<Longrightarrow> get_local_path self p fp = Inr lp \<Longrightarrow> path_suffix lp = ''.strm''"
  by (auto simp: get_local_path_def Let_def dest: with_suffix_strm)

lemma filter_entry_pointer:
  assumes "built self" and "\<not> is_dir p" and "lower (suffix p) \<in> VIDEO_EXTS"
    and "suffix p \<notin> download_exts self" and "\<not> overwrite self"
    and "get_local_path self p fp = Inr lp" and "exists fs lp"
  shows "filter_entry parse fs self p fp =
           (Return False,
            self\<lparr>self_full_path := Some fp,
                 processed_local_paths := insert lp (processed_local_paths self)\<rparr>)"
proof -
  from assms(1,3) have "lower (suffix p) \<in> process_file_exts self"
    by (auto simp: built_def)
  with assms show ?thesis
    by (simp add: filter_entry_def Let_def)
qed

text \<open>
  C9, as the code has it. For an entry that maps to a pointer file (a media extension,
  compared in lower case) and whose extension as written is not in the download set,
  with overwrite disabled and the local file in place, the filter answers \<open>False\<close> on
  existence alone: whatever the date, the size and the signature of the entry are, and
  whatever the date parser is; nothing is yielded, so the step makes no remote call and
  writes nothing.
\<close>

theorem pointer_exists_skipped:
  assumes "built (obj w)" and "\<not> is_dir p" and "lower (suffix p) \<in> VIDEO_EXTS"
    and "suffix p \<notin> download_exts (obj w)" and "\<not> overwrite (obj w)"
    and "get_local_path (obj w) p fp = Inr lp" and "exists (disk w) lp"
  shows "path_suffix lp = ''.strm''
       \<and> (\<forall>m sz sg. fst (filter_entry parse (disk w) (obj w)
                             (p\<lparr>modified := m, size := sz, sign := sg\<rparr>) fp) = Return False)
       \<and> fst (filter_and_yield env cl d p fp w) = Return ()
       \<and> trace (snd (filter_and_yield env cl d p fp w)) = trace w
       \<and> disk (snd (filter_and_yield env cl d p fp w)) = disk w"
proof -
  have "fst (filter_entry parse (disk w) (obj w) (p\<lparr>modified := m, size := sz, sign := sg\<rparr>) fp)
      = Return False" for m sz sg
  proof -
    let ?q = "p\<lparr>modified := m, size := sz, sign := sg\<rparr>"
    have q: "\<not> is_dir ?q" "suffix ?q = suffix p"
      using assms(2) by (simp_all add: suffix_def)
    have "get_local_path (obj w) ?q fp = Inr lp"
      using assms(6) get_local_path_entry [of ?q p "obj w" fp] by simp
    from filter_entry_pointer [OF assms(1) q(1) _ _ assms(5) this assms(7)] assms(3,4) q(2)
    show ?thesis by simp
  qed
  moreover from filter_entry_pointer [OF assms, of "fromisoformat env"]
  have "filter_and_yield env cl d p fp w =
      (Return (), w\<lparr>obj := (obj w)\<lparr>self_full_path := Some fp,
           processed_local_paths := insert lp (processed_local_paths (obj w))\<rparr>\<rparr>)"
    by (simp add: filter_and_yield_def)
  ultimately show ?thesis
    using pointer_suffix [OF assms(3,6)] by simp
qed

theorem pointer_exists_skipped_witness:
  "built (obj (example_world srt_disk)) \<and> \<not> is_dir mp4_item
   \<and> lower (suffix mp4_item) \<in> VIDEO_EXTS
   \<and> suffix mp4_item \<notin> download_exts (obj (example_world srt_disk))
   \<and> \<not> overwrite (obj (example_world srt_disk))
   \<and> get_local_path (obj (example_world srt_disk)) mp4_item ''/a.mp4''
       = Inr (Path ''/'' [''t'', ''a.strm''])
   \<and> exists (disk (example_world srt_disk)) (Path ''/'' [''t'', ''a.strm''])
   \<and> fst (filter_and_yield example_env example_client True mp4_item ''/a.mp4''
             (example_world srt_disk)) = Return ()
   \<and> trace (snd (filter_and_yield example_env example_client True mp4_item ''/a.mp4''
                    (example_world srt_disk))) = []"
proof -
  let ?w = "example_world srt_disk"
  have h1: "built (obj ?w)"
    by code_simp
  have h2: "\<not> is_dir mp4_item"
    by code_simp
  have h3: "lower (suffix mp4_item) \<in> VIDEO_EXTS"
    by code_simp
  have h4: "suffix mp4_item \<notin> download_exts (obj ?w)"
    by code_simp
  have h5: "\<not> overwrite (obj ?w)"
    by code_simp
  have h6: "get_local_path (obj ?w) mp4_item ''/a.mp4'' = Inr (Path ''/'' [''t'', ''a.strm''])"
    by code_simp
  have h7: "exists (disk ?w) (Path ''/'' [''t'', ''a.strm''])"
    by code_simp
  have h8: "trace ?w = []"
    by code_simp
  from pointer_exists_skipped [OF h1 h2 h3 h4 h5 h6 h7, of _ example_env example_client True]
    h1 h2 h3 h4 h5 h6 h7 h8
  show ?thesis
    by simp
qed

text \<open>
  C9 as stated fails when the job lists a media extension among its download extensions
  (\<open>other_ext=".mp4"\<close>): the pointer file of \<open>a.mp4\<close> exists, overwrite is disabled, and the
  filter compares it with the remote entry and answers \<open>True\<close>, the pointer file being
  shorter than the film.
\<close>

theorem listed_media_pointer_compared:
  "init (\<lambda>r s. False) mp4_kwargs = Inr mp4_self
   \<and> \<not> is_dir mp4_item \<and> lower (suffix mp4_item) \<in> VIDEO_EXTS
   \<and> \<not> overwrite mp4_self
   \<and> get_local_path mp4_self mp4_item ''/a.mp4'' = Inr (Path ''/'' [''t'', ''a.strm''])
   \<and> path_suffix (Path ''/'' [''t'', ''a.strm'']) = ''.strm''
   \<and> exists srt_disk (Path ''/'' [''t'', ''a.strm''])
   \<and> fst (filter_entry (fromisoformat example_env) srt_disk mp4_self mp4_item ''/a.mp4'')
       = Return True"
proof -
  have "init (\<lambda>r s. False) mp4_kwargs = Inr mp4_self"
    by (rule init_mp4)
  moreover have "\<not> is_dir mp4_item \<and> lower (suffix mp4_item) \<in> VIDEO_EXTS
   \<and> \<not> overwrite mp4_self
   \<and> get_local_path mp4_self mp4_item ''/a.mp4'' = Inr (Path ''/'' [''t'', ''a.strm''])
   \<and> path_suffix (Path ''/'' [''t'', ''a.strm'']) = ''.strm''
   \<and> exists srt_disk (Path ''/'' [''t'', ''a.strm''])
   \<and> fst (filter_entry (fromisoformat example_env) srt_disk mp4_self mp4_item ''/a.mp4'')
       = Return True"
    by code_simp
  ultimately show ?thesis
    by blast
qed

section \<open>The processing pipeline\<close>





section \<open>The two limits\<close>

lemma step_slots:
  "step s s' \<Longrightarrow> downloaders_free s' + downloading s' = downloaders_free s + downloading s"
  by (induction rule: step.induct) (auto simp: downloading_def)

lemma steps_slots:
  "step\<^sup>*\<^sup>* s s' \<Longrightarrow> downloaders_free s' + downloading s' = downloaders_free s + downloading s"
  by (induction rule: rtranclp_induct) (auto dest: step_slots)

lemma download_limit_holds:
  assumes "enter_group self ys = Some s0" and "step\<^sup>*\<^sup>* s0 s"
  shows "downloading s \<le> max_downloaders self"
proof -
  from assms(1) have "downloaders_free s0 = max_downloaders self" "downloading s0 = 0"
    by (auto simp: enter_group_def downloading_def split: if_splits)
  with steps_slots [OF assms(2)] show ?thesis
    by simp
qed

lemma step_workers: "step s s' \<Longrightarrow> workers_free s' = workers_free s"
  by (induction rule: step.induct) auto

text \<open>
  C3 fails on the code for \<open>max_workers\<close>: \<open>run\<close> takes the semaphore once, around the
  whole task group, and no task takes it. With \<open>max_workers = 1\<close> two tasks are at work
  together. The limit on downloads holds (\<open>download_limit_holds\<close>): a task is counted
  while it is inside \<open>__max_downloaders\<close>, which a task that writes a pointer file never
  enters.
\<close>

theorem workers_limit_not_enforced:
  "max_workers example_self = 1
   \<and> enter_group example_self [strm_path, srt_path]
       = Some \<lparr>workers_free = 0, downloaders_free = 5, pending = [strm_path, srt_path],
               tasks = []\<rparr>
   \<and> step\<^sup>*\<^sup>* \<lparr>workers_free = 0, downloaders_free = 5, pending = [strm_path, srt_path],
               tasks = []\<rparr> two_tasks
   \<and> in_flight two_tasks = 2"
proof -
  let ?s0 = "\<lparr>workers_free = 0, downloaders_free = 5, pending = [strm_path, srt_path],
      tasks = []\<rparr>"
  let ?s1 = "\<lparr>workers_free = 0, downloaders_free = 5, pending = [srt_path],
      tasks = [(strm_path, Created)]\<rparr>"
  let ?s2 = "\<lparr>workers_free = 0, downloaders_free = 5, pending = [],
      tasks = [(strm_path, Created), (srt_path, Created)]\<rparr>"
  let ?s3 = "\<lparr>workers_free = 0, downloaders_free = 5, pending = [],
      tasks = [(strm_path, Mkdir), (srt_path, Created)]\<rparr>"
  have a: "step ?s0 ?s1"
    using step.spawn [of ?s0 strm_path "[srt_path]"] by simp
  have b: "step ?s1 ?s2"
    using step.spawn [of ?s1 srt_path "[]"] by simp
  have c: "step ?s2 ?s3"
    using step.start [of ?s2 "[]" strm_path "[(srt_path, Created)]"] by simp
  have d: "step ?s3 two_tasks"
    using step.start [of ?s3 "[(strm_path, Mkdir)]" srt_path "[]"] by (simp add: two_tasks_def)
  from a b c d have "step\<^sup>*\<^sup>* ?s0 two_tasks"
    by (meson rtranclp.rtrancl_into_rtrancl rtranclp.rtrancl_refl)
  moreover have "max_workers example_self = 1"
    by (simp add: example_self_def)
  moreover have "enter_group example_self [strm_path, srt_path] = Some ?s0"
    by (simp add: enter_group_def example_self_def)
  moreover have "in_flight two_tasks = 2"
    by (simp add: in_flight_def two_tasks_def)
  ultimately show ?thesis
    by blast
qed

section \<open>The reconciler keeps and removes\<close>

lemma map_of_remove: "map_of (remove p fs) q = (if q = p then None else map_of fs q)"
  by (induction fs) (auto simp: remove_def)



lemma is_file_remove: "q \<noteq> p \<Longrightarrow> is_file (remove p fs) q = is_file fs q"
  by (simp add: is_file_def map_of_remove)


lemma file_not_directory: "is_file fs q \<Longrightarrow> \<not> is_directory fs q"
  by (auto simp: is_file_def is_directory_def split: option.splits)







lemma remove_empty_dirs_keeps_files:
  "is_file fs q \<Longrightarrow> map_of (remove_empty_dirs t fs d) q = map_of fs q"
proof (induction t fs d rule: remove_empty_dirs.induct)
  case (1 t fs d)
  show ?case
  proof (cases "d \<noteq> t \<and> is_directory fs d \<and> children fs d = [] \<and> tail d \<noteq> []")
    case True
    then have eq: "remove_empty_dirs t fs d = remove_empty_dirs t (remove d fs) (parent d)"
      by (subst remove_empty_dirs.simps) (simp add: iterdir_def rmdir_def)
    from True "1.prems" have qd: "q \<noteq> d"
      using file_not_directory by blast
    with "1.prems" have "is_file (remove d fs) q"
      by (simp add: is_file_remove)
    with True have "map_of (remove_empty_dirs t (remove d fs) (parent d)) q = map_of (remove d fs) q"
      using "1.IH" [of "children fs d" "remove d fs"] by (simp add: iterdir_def rmdir_def)
    with eq qd show ?thesis
      by (simp add: map_of_remove)
  next
    case False
    then have "remove_empty_dirs t fs d = fs"
      by (subst remove_empty_dirs.simps) (auto simp: iterdir_def rmdir_def)
    then show ?thesis by simp
  qed
qed


lemma cleanup_file_keeps:
  assumes "f \<noteq> p" and "is_file fs p"
  shows "map_of (cleanup_file self fs f) p = map_of fs p"
proof -
  from assms have "is_file (remove f fs) p"
    by (simp add: is_file_remove)
  from remove_empty_dirs_keeps_files [OF this, of "target_dir self" "parent f"] assms
  show ?thesis
    by (auto simp: cleanup_file_def unlink_def map_of_remove)
qed



lemma foldl_cleanup_keeps:
  "p \<notin> set ys \<Longrightarrow> is_file fs p \<Longrightarrow> map_of (foldl (cleanup_file self) fs ys) p = map_of fs p"
proof (induction ys arbitrary: fs)
  case Nil
  show ?case by simp
next
  case (Cons y ys)
  then have k: "map_of (cleanup_file self fs y) p = map_of fs p"
    using cleanup_file_keeps [of y p fs self] by auto
  with Cons.prems have "is_file (cleanup_file self fs y) p"
    by (simp add: is_file_def)
  with Cons k show ?case by simp
qed


text \<open>
  C4. A local file whose path is in the touched set when the reconciler starts is still
  there when it has finished, with the content, the time and the size it had: the
  reconciler unlinks only paths outside the set and removes only directories. The
  order in which Python goes through the set of files to delete does not matter.
\<close>

theorem reconciler_keeps_touched:
  assumes "p \<in> processed_local_paths (obj w)" and "is_file (disk w) p"
    and "\<forall>xs. set (set_order env xs) = set xs"
  shows "map_of (disk (snd (cleanup_local_files env w))) p = map_of (disk w) p"
proof (cases "all_local_files (obj w) (disk w)")
  case (Inl e)
  then show ?thesis by (simp add: cleanup_local_files_def)
next
  case (Inr files)
  from assms(1,3) have "p \<notin> set (set_order env (files_to_delete (obj w) files))"
    by (simp add: files_to_delete_def)
  from foldl_cleanup_keeps [OF this assms(2)] Inr show ?thesis
    by (simp add: cleanup_local_files_def)
qed

theorem reconciler_keeps_touched_witness:
  "strm_path \<in> processed_local_paths (obj mirror_world) \<and> is_file (disk mirror_world) strm_path
   \<and> (\<forall>xs. set (set_order example_env xs) = set xs)
   \<and> map_of (disk (snd (cleanup_local_files example_env mirror_world))) strm_path
       = Some (Node Regular 1800000000 15 ''http://h/d/a.mp4'')"
proof -
  have h1: "strm_path \<in> processed_local_paths (obj mirror_world)"
    by code_simp
  have h2: "is_file (disk mirror_world) strm_path"
    by code_simp
  have h3: "\<forall>xs. set (set_order example_env xs) = set xs"
    by (simp add: example_env_def)
  have "map_of (disk mirror_world) strm_path = Some (Node Regular 1800000000 15 ''http://h/d/a.mp4'')"
    by code_simp
  with reconciler_keeps_touched [OF h1 h2 h3] h1 h2 h3 show ?thesis
    by simp
qed

















end
